theory Spec2Isabelle
  imports Main "HOL-Library.Multiset"
begin

section \<open>Data model (schemas/__init__.py)\<close>

text \<open>
  Python strings are modelled as \<^typ>\<open>string\<close>; one \<^typ>\<open>char\<close> stands for one code
  point, so the model covers text whose code points are below 256. Python integers are
  \<^typ>\<open>int\<close>. Pydantic models are records, \<open>Literal\<close> types are datatypes, and
  \<open>Optional\<close> fields are options. A field whose name is already taken (by HOL or by
  another record) carries a prefix.
\<close>

record Task =
  task_id :: int
  task_title :: string
  goal :: string
  bullets :: "string list"
  target_words :: int
  tags :: "string list"
  requires_research :: bool
  requires_citations :: bool
  requires_code :: bool

datatype blog_kind = explainer | tutorial | news_roundup | comparison | system_design

record Plan =
  blog_title :: string
  audience :: string
  tone :: string
  blog_kind :: blog_kind
  constraints :: "string list"
  tasks :: "Task list"

record EvidenceItem =
  title :: string
  url :: string
  published_at :: "string option"
  snippet :: "string option"
  source :: "string option"

record EvidencePack =
  pack_evidence :: "EvidenceItem list"

datatype mode_literal = closed_book | hybrid | open_book

fun mode_str :: "mode_literal \<Rightarrow> string" where
  "mode_str closed_book = ''closed_book''"
| "mode_str hybrid = ''hybrid''"
| "mode_str open_book = ''open_book''"

record RouterDecision =
  d_needs_research :: bool
  d_mode :: mode_literal
  reason :: string
  d_queries :: "string list"
  max_results_per_query :: int

text \<open>
  \<open>State\<close> is the TypedDict every node reads; \<open>main._initial_state\<close> creates it with
  every key present, so it is a record.
\<close>

record State =
  topic :: string
  mode :: string
  needs_research :: bool
  queries :: "string list"
  evidence :: "EvidenceItem list"
  plan :: "Plan option"
  as_of :: string
  recency_days :: int
  sections :: "(int \<times> string) list"
  final :: string

text \<open>
  Exceptions are values. \<open>ServiceError\<close> stands for whatever an external call (language
  model, search service) raises; \<open>OSError\<close> for what the operating system refuses;
  \<open>GraphError\<close> for a branch result the graph cannot map.
\<close>

datatype error = AssertionError | ValueError | OverflowError | OSError | ServiceError | GraphError

section \<open>Router (nodes/router.py)\<close>

definition recency_map :: "(string \<times> int) list" where
  "recency_map = [(''open_book'', 7), (''hybrid'', 45), (''closed_book'', 3650)]"

definition dict_get :: "('k \<times> 'v) list \<Rightarrow> 'k \<Rightarrow> 'v \<Rightarrow> 'v" where
  "dict_get d k dflt = (case map_of d k of None \<Rightarrow> dflt | Some v \<Rightarrow> v)"

text \<open>The dict a node returns is a record of the keys it writes.\<close>

record router_update =
  u_needs_research :: bool
  u_mode :: string
  u_queries :: "string list"
  u_recency_days :: int

text \<open>
  \<open>decider\<close> is the structured-output call of the language model: it receives the human
  message (the system prompt is a constant) and returns a validated \<open>RouterDecision\<close> or
  raises.
\<close>

definition router_node ::
  "(string \<Rightarrow> error + RouterDecision) \<Rightarrow> State \<Rightarrow> error + router_update" where
  "router_node decider s =
     (case decider (''Topic: '' @ topic s @ ''\<newline>As-of date: '' @ as_of s) of
        Inl e \<Rightarrow> Inl e
      | Inr decision \<Rightarrow>
          let recency = dict_get recency_map (mode_str (d_mode decision)) 3650
          in Inr \<lparr>u_needs_research = d_needs_research decision,
                  u_mode = mode_str (d_mode decision),
                  u_queries = d_queries decision,
                  u_recency_days = recency\<rparr>)"

definition route_next :: "State \<Rightarrow> string" where
  "route_next s = (if needs_research s then ''research'' else ''orchestrator'')"

section \<open>Dates (utils/__init__.py and the standard library)\<close>

text \<open>
  A \<open>datetime.date\<close> is its proleptic Gregorian ordinal (1 is 0001-01-01, 3652059 is
  9999-12-31); dates compare as their ordinals do. \<open>timedelta(days=n)\<close> and the
  subtraction of a timedelta from a date raise OverflowError out of range.
\<close>

type_synonym date = int

definition timedelta_days :: "int \<Rightarrow> error + int" where
  "timedelta_days n = (if \<bar>n\<bar> \<le> 999999999 then Inr n else Inl OverflowError)"

definition date_sub :: "date \<Rightarrow> int \<Rightarrow> error + date" where
  "date_sub d n = (let r = d - n in if 1 \<le> r \<and> r \<le> 3652059 then Inr r else Inl OverflowError)"

text \<open>
  \<open>iso_to_date\<close>: None for a missing or empty string, else the parse of the first ten
  characters, None when that parse raises. The parser \<open>date.fromisoformat\<close> belongs to the
  standard library and is a parameter.
\<close>

definition iso_to_date :: "(string \<Rightarrow> error + date) \<Rightarrow> string option \<Rightarrow> date option" where
  "iso_to_date fromisoformat s =
     (case s of
        None \<Rightarrow> None
      | Some str \<Rightarrow>
          if str = [] then None
          else (case fromisoformat (take 10 str) of Inl e \<Rightarrow> None | Inr d \<Rightarrow> Some d))"

text \<open>
  A concrete parser for the format \<open>YYYY-MM-DD\<close>, following the standard library's
  \<open>date.fromisoformat\<close> on that format (newer Python versions accept further ISO
  formats, which is why the parser is a parameter); it instantiates the parameter in
  examples.
\<close>

definition is_leap :: "int \<Rightarrow> bool" where
  "is_leap y = (y mod 4 = 0 \<and> (y mod 100 \<noteq> 0 \<or> y mod 400 = 0))"

definition days_in_month :: "int \<Rightarrow> int \<Rightarrow> int" where
  "days_in_month y m =
     (if m = 2 then (if is_leap y then 29 else 28)
      else if m = 4 \<or> m = 6 \<or> m = 9 \<or> m = 11 then 30 else 31)"

definition days_before_year :: "int \<Rightarrow> int" where
  "days_before_year y = (y - 1) * 365 + (y - 1) div 4 - (y - 1) div 100 + (y - 1) div 400"

definition days_before_month :: "int \<Rightarrow> int \<Rightarrow> int" where
  "days_before_month y m = sum_list (map (days_in_month y) [1 .. m - 1])"

definition ymd2ord :: "int \<Rightarrow> int \<Rightarrow> int \<Rightarrow> date" where
  "ymd2ord y m d = days_before_year y + days_before_month y m + d"

definition digit :: "char \<Rightarrow> int option" where
  "digit c = (let n = (of_char c :: nat) in if 48 \<le> n \<and> n \<le> 57 then Some (int n - 48) else None)"

fun number :: "string \<Rightarrow> int \<Rightarrow> int option" where
  "number [] acc = Some acc"
| "number (c # cs) acc = (case digit c of None \<Rightarrow> None | Some d \<Rightarrow> number cs (10 * acc + d))"

definition date_fromisoformat :: "string \<Rightarrow> error + date" where
  "date_fromisoformat s =
     (if length s = 10 \<and> s ! 4 = CHR ''-'' \<and> s ! 7 = CHR ''-'' then
        (case (number (take 4 s) 0, number (take 2 (drop 5 s)) 0, number (drop 8 s) 0) of
           (Some y, Some m, Some d) \<Rightarrow>
             if 1 \<le> y \<and> 1 \<le> m \<and> m \<le> 12 \<and> 1 \<le> d \<and> d \<le> days_in_month y m
             then Inr (ymd2ord y m d) else Inl ValueError
         | _ \<Rightarrow> Inl ValueError)
      else Inl ValueError)"

section \<open>Research (nodes/research.py)\<close>

text \<open>
  \<open>tavily_search\<close> calls the external search tool and renames the fields of what it
  returns. \<open>research_node\<close> depends only on the list it gets back (or on the exception),
  so the function is a parameter: given a query and \<open>max_results\<close> it returns the raw
  results or raises, and every result below holds for every such function. The loop
  extends \<open>raw_results\<close> query by query.
\<close>

fun gather :: "(string \<Rightarrow> nat \<Rightarrow> error + 'r list) \<Rightarrow> string list \<Rightarrow> 'r list \<Rightarrow> error + 'r list" where
  "gather tavily_search [] raw_results = Inr raw_results"
| "gather tavily_search (query # qs) raw_results =
     (case tavily_search query 2 of
        Inl e \<Rightarrow> Inl e
      | Inr rs \<Rightarrow> gather tavily_search qs (raw_results @ rs))"

text \<open>
  A Python dict keeps insertion order: assigning to a key that is present replaces the
  value where it stands, a new key goes to the end.
\<close>

fun dict_setitem :: "'k \<Rightarrow> 'v \<Rightarrow> ('k \<times> 'v) list \<Rightarrow> ('k \<times> 'v) list" where
  "dict_setitem k v [] = [(k, v)]"
| "dict_setitem k v (p # ps) = (if fst p = k then (k, v) # ps else p # dict_setitem k v ps)"

text \<open>\<open>{e.url: e for e in items if e.url}\<close>, built item by item.\<close>

fun dedup_loop :: "EvidenceItem list \<Rightarrow> (string \<times> EvidenceItem) list \<Rightarrow> (string \<times> EvidenceItem) list" where
  "dedup_loop [] d = d"
| "dedup_loop (e # es) d = dedup_loop es (if url e \<noteq> [] then dict_setitem (url e) e d else d)"

definition deduped :: "EvidenceItem list \<Rightarrow> (string \<times> EvidenceItem) list" where
  "deduped items = dedup_loop items []"

definition dict_values :: "('k \<times> 'v) list \<Rightarrow> 'v list" where
  "dict_values d = map snd d"

text \<open>The loop of the hard date filter, appending to \<open>fresh_evidence\<close>.\<close>

fun fresh_loop ::
  "(string \<Rightarrow> error + date) \<Rightarrow> date \<Rightarrow> EvidenceItem list \<Rightarrow> EvidenceItem list \<Rightarrow> EvidenceItem list" where
  "fresh_loop fromisoformat cutoff_date [] fresh_evidence = fresh_evidence"
| "fresh_loop fromisoformat cutoff_date (item # items) fresh_evidence =
     fresh_loop fromisoformat cutoff_date items
       (case iso_to_date fromisoformat (published_at item) of
          None \<Rightarrow> fresh_evidence
        | Some item_date \<Rightarrow>
            if item_date \<ge> cutoff_date then fresh_evidence @ [item] else fresh_evidence)"

text \<open>
  \<open>extractor\<close> is the structured-output call that normalises the raw results; its prompt
  is built from \<open>as_of\<close>, \<open>recency_days\<close> and the raw results, which are its arguments
  here. The node returns the value of the key \<open>evidence\<close>.
\<close>

definition research_node ::
  "(string \<Rightarrow> error + date) \<Rightarrow> (string \<Rightarrow> nat \<Rightarrow> error + 'r list) \<Rightarrow>
   (string \<Rightarrow> int \<Rightarrow> 'r list \<Rightarrow> error + EvidencePack) \<Rightarrow> State \<Rightarrow> error + EvidenceItem list" where
  "research_node fromisoformat tavily_search extractor s =
     (case gather tavily_search (take 2 (queries s)) [] of
        Inl e \<Rightarrow> Inl e
      | Inr raw_results \<Rightarrow>
          if raw_results = [] then Inr []
          else
            (case extractor (as_of s) (recency_days s) raw_results of
               Inl e \<Rightarrow> Inl e
             | Inr pack \<Rightarrow>
                 let evidence0 = dict_values (deduped (pack_evidence pack)) in
                 if mode s = ''open_book'' then
                   (case fromisoformat (as_of s) of
                      Inl e \<Rightarrow> Inl e
                    | Inr as_of_date \<Rightarrow>
                        (case timedelta_days (recency_days s) of
                           Inl e \<Rightarrow> Inl e
                         | Inr delta \<Rightarrow>
                             (case date_sub as_of_date delta of
                                Inl e \<Rightarrow> Inl e
                              | Inr cutoff_date \<Rightarrow>
                                  Inr (fresh_loop fromisoformat cutoff_date evidence0 []))))
                 else Inr evidence0))"

section \<open>Orchestrator (nodes/orchestrator.py)\<close>

text \<open>
  \<open>planner\<close> is the structured-output call that returns a \<open>Plan\<close>; its arguments are the
  values the prompt is built from. The node returns the value of the key \<open>plan\<close>.
\<close>

definition orchestrator_node ::
  "(string \<Rightarrow> string \<Rightarrow> string \<Rightarrow> int \<Rightarrow> string \<Rightarrow> EvidenceItem list \<Rightarrow> error + Plan) \<Rightarrow>
   State \<Rightarrow> error + Plan" where
  "orchestrator_node planner s =
     (let mode0 = mode s;
          evidence0 = evidence s;
          force_news_note = (if mode0 = ''open_book'' then ''Force blog_kind=news_roundup'' else [])
      in case planner (topic s) mode0 (as_of s) (recency_days s) force_news_note (take 16 evidence0) of
           Inl e \<Rightarrow> Inl e
         | Inr plan0 \<Rightarrow>
             Inr (if mode0 = ''open_book'' then plan0\<lparr>blog_kind := news_roundup\<rparr> else plan0))"

section \<open>Fan-out (graph/fanout.py)\<close>

text \<open>
  The payload is the dict sent to one worker; \<open>model_dump()\<close> copies a model into a
  dict with the same content, so the payload holds the values themselves. The
  \<open>assert\<close> on the plan raises AssertionError.
\<close>

record payload =
  p_task :: Task
  p_topic :: string
  p_mode :: string
  p_as_of :: string
  p_recency_days :: int
  p_plan :: Plan
  p_evidence :: "EvidenceItem list"

datatype Send = Send (node: string) (arg: payload)

definition fanout :: "State \<Rightarrow> error + Send list" where
  "fanout s =
     (case plan s of
        None \<Rightarrow> Inl AssertionError
      | Some p \<Rightarrow>
          Inr (map (\<lambda>task. Send ''worker''
                      \<lparr>p_task = task,
                       p_topic = topic s,
                       p_mode = mode s,
                       p_as_of = as_of s,
                       p_recency_days = recency_days s,
                       p_plan = p,
                       p_evidence = evidence s\<rparr>)
                 (tasks p)))"

section \<open>Reducer (nodes/reducer.py)\<close>

text \<open>\<open>str.isspace\<close> on the code points below 256, and \<open>str.strip()\<close>.\<close>

definition isspace :: "char \<Rightarrow> bool" where
  "isspace c = (let n = (of_char c :: nat) in (9 \<le> n \<and> n \<le> 13) \<or> (28 \<le> n \<and> n \<le> 32) \<or> n = 133 \<or> n = 160)"

definition strip :: "string \<Rightarrow> string" where
  "strip s = rev (dropWhile isspace (rev (dropWhile isspace s)))"

fun join :: "string \<Rightarrow> string list \<Rightarrow> string" where
  "join sep [] = []"
| "join sep [x] = x"
| "join sep (x # y # ys) = x @ sep @ join sep (y # ys)"

text \<open>\<open>str.lower()\<close> on the code points below 256.\<close>

definition lower_char :: "char \<Rightarrow> char" where
  "lower_char c =
     (let n = (of_char c :: nat)
      in if (65 \<le> n \<and> n \<le> 90) \<or> (192 \<le> n \<and> n \<le> 214) \<or> (216 \<le> n \<and> n \<le> 222)
         then char_of (n + 32) else c)"

definition lower :: "string \<Rightarrow> string" where
  "lower s = map lower_char s"

text \<open>The character class of the regular expression: backslash, slash, colon, star,
  question mark, double quote, less, greater, bar.\<close>

definition unsafe_chars :: "char list" where
  "unsafe_chars = [CHR 0x5C, CHR ''/'', CHR '':'', CHR ''*'', CHR ''?'', CHR 0x22, CHR ''<'', CHR ''>'', CHR ''|'']"

text \<open>\<open>re.sub\<close> with that class and the replacement \<open>_\<close>: every match is one character.\<close>

definition re_sub_unsafe :: "string \<Rightarrow> string" where
  "re_sub_unsafe s = map (\<lambda>c. if c \<in> set unsafe_chars then CHR ''_'' else c) s"

text \<open>
  The file system is a map from file names to contents. \<open>Path(filename).write_text\<close>
  belongs to the standard library and the operating system and is a parameter: given
  the file system, the name and the content, it returns the file system it leaves and
  the exception it raises, if any. The node returns the file system it leaves and either
  the error it raises or the value of the key \<open>final\<close>; an exception of the write
  leaves the node before the \<open>return\<close>. The first two assignments to \<open>filename\<close> are
  overwritten by the third, as in the source.
\<close>

type_synonym filesystem = "string \<rightharpoonup> string"

text \<open>A call that may raise, followed by a \<open>return\<close>.\<close>

fun raise_or_return :: "error option \<Rightarrow> 'a \<Rightarrow> error + 'a" where
  "raise_or_return (Some e) v = Inl e"
| "raise_or_return None v = Inr v"

type_synonym writer = "filesystem \<Rightarrow> string \<Rightarrow> string \<Rightarrow> filesystem \<times> error option"

definition reducer_node :: "writer \<Rightarrow> State \<Rightarrow> filesystem \<Rightarrow> filesystem \<times> (error + string)" where
  "reducer_node write_text s fs =
     (case plan s of
        None \<Rightarrow> (fs, Inl ValueError)
      | Some p \<Rightarrow>
          let ordered_sections = map snd (sort_key fst (sections s));
              body = strip (join ''\<newline>\<newline>'' ordered_sections);
              final_md = ''# '' @ blog_title p @ ''\<newline>\<newline>'' @ body @ ''\<newline>'';
              filename = lower (blog_title p);
              filename = take 40 filename;
              filename = re_sub_unsafe (blog_title p) @ ''.md'';
              written = write_text fs filename final_md
          in (fst written, raise_or_return (snd written) final_md))"

text \<open>
  A concrete writer, for the examples: CPython on a POSIX file system with names of at
  most 255 bytes. A name with a NUL character raises ValueError before anything is
  opened, a name longer than 255 bytes in UTF-8 raises OSError, and every other name
  receives the content. Other refusals of a real file system (permissions, a full disk)
  are further instances of the parameter.
\<close>

definition utf8_length :: "string \<Rightarrow> nat" where
  "utf8_length s = sum_list (map (\<lambda>c. if (of_char c :: nat) < 128 then 1 else 2) s)"

definition posix_write_text :: writer where
  "posix_write_text fs name content =
     (if CHR 0x00 \<in> set name then (fs, Some ValueError)
      else if utf8_length name > 255 then (fs, Some OSError)
      else (fs(name \<mapsto> content), None))"

section \<open>Graph (graph/builder.py)\<close>

text \<open>
  The graph as \<open>build_graph\<close> wires it: the node names, the fixed edges in the order
  they are added, and the conditional edges. A conditional edge is either a routing
  function with its map from results to node names, or a dispatching function that
  returns \<open>Send\<close> objects.
\<close>

datatype branch =
  Route "State \<Rightarrow> string" "(string \<times> string) list"
| Dispatch "State \<Rightarrow> error + Send list" "string list"

record StateGraph =
  g_nodes :: "string list"
  g_edges :: "(string \<times> string) list"
  g_branches :: "(string \<times> branch) list"

definition START :: string where
  "START = ''__start__''"

definition END :: string where
  "END = ''__end__''"

definition build_graph :: StateGraph where
  "build_graph =
     \<lparr>g_nodes = [''router'', ''research'', ''orchestrator'', ''worker'', ''reducer''],
      g_edges = [(START, ''router''), (''research'', ''orchestrator''), (''reducer'', END),
                 (''worker'', ''reducer'')],
      g_branches =
        [(''router'', Route route_next [(''research'', ''research''), (''orchestrator'', ''orchestrator'')]),
         (''orchestrator'', Dispatch fanout [''worker''])]\<rparr>"

text \<open>
  What runs after a node has returned: the targets of its fixed edges, then the targets
  its conditional edges choose on the state.
\<close>

fun branch_targets :: "branch \<Rightarrow> State \<Rightarrow> error + string list" where
  "branch_targets (Route f path_map) s =
     (case map_of path_map (f s) of None \<Rightarrow> Inl GraphError | Some t \<Rightarrow> Inr [t])"
| "branch_targets (Dispatch f targets) s =
     (case f s of Inl e \<Rightarrow> Inl e | Inr sends \<Rightarrow> Inr (map node sends))"

definition successors :: "StateGraph \<Rightarrow> string \<Rightarrow> State \<Rightarrow> error + string list" where
  "successors g n s =
     (let fixed = map snd (filter (\<lambda>e. fst e = n) (g_edges g))
      in case map_of (g_branches g) n of
           None \<Rightarrow> Inr fixed
         | Some b \<Rightarrow>
             (case branch_targets b s of Inl e \<Rightarrow> Inl e | Inr ts \<Rightarrow> Inr (fixed @ ts)))"

section \<open>Entry point (main.py) and example data\<close>

definition initial_state :: "string \<Rightarrow> string \<Rightarrow> State" where
  "initial_state topic0 as_of0 =
     \<lparr>topic = topic0, mode = [], needs_research = False, queries = [], evidence = [],
      plan = None, as_of = as_of0, recency_days = 7, sections = [], final = []\<rparr>"

text \<open>Well-formed values of the schemas, for the examples below.\<close>

definition ex_task :: "int \<Rightarrow> Task" where
  "ex_task i = \<lparr>task_id = i, task_title = ''Section'', goal = ''Explain'',
     bullets = [''one'', ''two'', ''three''], target_words = 200, tags = [],
     requires_research = False, requires_citations = False, requires_code = False\<rparr>"

definition ex_plan :: "string \<Rightarrow> int list \<Rightarrow> Plan" where
  "ex_plan t ids = \<lparr>blog_title = t, audience = ''developers'', tone = ''plain'',
     blog_kind = tutorial, constraints = [], tasks = map ex_task ids\<rparr>"

definition ex_reduce_state :: "string \<Rightarrow> int list \<Rightarrow> (int \<times> string) list \<Rightarrow> State" where
  "ex_reduce_state t ids secs =
     (initial_state ''AI for kids'' ''2026-02-19'')\<lparr>plan := Some (ex_plan t ids), sections := secs\<rparr>"

definition ex_decision :: "mode_literal \<Rightarrow> RouterDecision" where
  "ex_decision m = \<lparr>d_needs_research = True, d_mode = m, reason = ''why'',
     d_queries = [''q1'', ''q2'', ''q3''], max_results_per_query = 5\<rparr>"

definition ex_item :: "string \<Rightarrow> string \<Rightarrow> string option \<Rightarrow> EvidenceItem" where
  "ex_item u t d = \<lparr>title = t, url = u, published_at = d, snippet = None, source = None\<rparr>"

definition ex_research_state :: "string \<Rightarrow> State" where
  "ex_research_state m =
     (initial_state ''AI news'' ''2026-02-19'')\<lparr>mode := m, needs_research := True,
        queries := [''q1'', ''q2'', ''q3'']\<rparr>"

text \<open>Stand-ins for the external services: a search that returns one raw result per
  query, a search that finds nothing, and an extractor that returns the given items.\<close>

definition ex_search :: "string \<Rightarrow> nat \<Rightarrow> error + string list" where
  "ex_search query max_results = Inr [query]"

definition ex_no_results :: "string \<Rightarrow> nat \<Rightarrow> error + string list" where
  "ex_no_results query max_results = Inr []"

definition ex_extractor :: "EvidenceItem list \<Rightarrow> string \<Rightarrow> int \<Rightarrow> string list \<Rightarrow> error + EvidencePack" where
  "ex_extractor items a r raw = Inr \<lparr>pack_evidence = items\<rparr>"

definition ex_dated :: "EvidenceItem list" where
  "ex_dated = [ex_item ''a'' ''X'' (Some ''2026-02-18''), ex_item ''b'' ''Y'' (Some ''2026-02-10''),
               ex_item ''c'' ''Z'' None]"

definition ex_dups :: "EvidenceItem list" where
  "ex_dups = [ex_item ''a'' ''X'' None, ex_item ''a'' ''Y'' None, ex_item ''b'' ''Z'' None]"

section \<open>Router: the recency window\<close>

text \<open>
  C6. Whatever decision the classifier returns, \<open>router_node\<close> writes the recency window
  that the fixed table gives for the returned mode: 7 for \<open>open_book\<close>, 45 for
  \<open>hybrid\<close>, 3650 for \<open>closed_book\<close>. No field of the decision other than the mode
  enters it (the decision schema has no recency field at all).
\<close>

theorem router_node_recency:
  assumes "decider (''Topic: '' @ topic s @ ''\<newline>As-of date: '' @ as_of s) = Inr d"
  shows "router_node decider s =
           Inr \<lparr>u_needs_research = d_needs_research d,
                u_mode = mode_str (d_mode d),
                u_queries = d_queries d,
                u_recency_days = (case d_mode d of open_book \<Rightarrow> 7 | hybrid \<Rightarrow> 45 | closed_book \<Rightarrow> 3650)\<rparr>"
  using assms
  by (cases "d_mode d") (simp_all add: router_node_def dict_get_def recency_map_def)

theorem router_node_recency_witness:
  "router_node (\<lambda>msg. Inr (ex_decision open_book)) (initial_state ''AI news'' ''2026-02-19'') =
     Inr \<lparr>u_needs_research = True, u_mode = ''open_book'', u_queries = [''q1'', ''q2'', ''q3''], u_recency_days = 7\<rparr>
   \<and> router_node (\<lambda>msg. Inr (ex_decision hybrid)) (initial_state ''AI news'' ''2026-02-19'') =
     Inr \<lparr>u_needs_research = True, u_mode = ''hybrid'', u_queries = [''q1'', ''q2'', ''q3''], u_recency_days = 45\<rparr>
   \<and> router_node (\<lambda>msg. Inr (ex_decision closed_book)) (initial_state ''AI news'' ''2026-02-19'') =
     Inr \<lparr>u_needs_research = True, u_mode = ''closed_book'', u_queries = [''q1'', ''q2'', ''q3''], u_recency_days = 3650\<rparr>"
  using router_node_recency [of "\<lambda>msg. Inr (ex_decision open_book)" "initial_state ''AI news'' ''2026-02-19''" "ex_decision open_book"]
        router_node_recency [of "\<lambda>msg. Inr (ex_decision hybrid)" "initial_state ''AI news'' ''2026-02-19''" "ex_decision hybrid"]
        router_node_recency [of "\<lambda>msg. Inr (ex_decision closed_book)" "initial_state ''AI news'' ''2026-02-19''" "ex_decision closed_book"]
  by (simp add: ex_decision_def)

section \<open>Orchestrator: the kind of an open-book plan\<close>

text \<open>
  C7. When the planner returns a plan, \<open>orchestrator_node\<close> returns that plan with
  \<open>blog_kind\<close> set to \<open>news_roundup\<close> if the mode is \<open>open_book\<close>, whatever kind the
  planner chose; in every other mode the planner's kind is kept. No other field changes.
\<close>

theorem orchestrator_node_kind:
  assumes "planner (topic s) (mode s) (as_of s) (recency_days s)
             (if mode s = ''open_book'' then ''Force blog_kind=news_roundup'' else [])
             (take 16 (evidence s)) = Inr p"
  shows "\<exists>p'. orchestrator_node planner s = Inr p'
           \<and> (mode s = ''open_book'' \<longrightarrow> blog_kind p' = news_roundup)
           \<and> (mode s \<noteq> ''open_book'' \<longrightarrow> blog_kind p' = blog_kind p)
           \<and> p' = p\<lparr>blog_kind := blog_kind p'\<rparr>"
  using assms by (simp add: orchestrator_node_def Let_def)

theorem orchestrator_node_kind_witness:
  "blog_kind (ex_plan ''T'' [1, 2, 3]) = tutorial
   \<and> orchestrator_node (\<lambda>t m a r n ev. Inr (ex_plan ''T'' [1, 2, 3]))
        ((initial_state ''AI news'' ''2026-02-19'')\<lparr>mode := ''open_book''\<rparr>)
       = Inr ((ex_plan ''T'' [1, 2, 3])\<lparr>blog_kind := news_roundup\<rparr>)
   \<and> orchestrator_node (\<lambda>t m a r n ev. Inr (ex_plan ''T'' [1, 2, 3]))
        ((initial_state ''AI news'' ''2026-02-19'')\<lparr>mode := ''hybrid''\<rparr>)
       = Inr (ex_plan ''T'' [1, 2, 3])"
proof -
  let ?planner = "\<lambda>(t::string) (m::string) (a::string) (r::int) (n::string) (ev::EvidenceItem list).
                    (Inr (ex_plan ''T'' [1, 2, 3]) :: error + Plan)"
  let ?open = "(initial_state ''AI news'' ''2026-02-19'')\<lparr>mode := ''open_book''\<rparr>"
  let ?hyb = "(initial_state ''AI news'' ''2026-02-19'')\<lparr>mode := ''hybrid''\<rparr>"
  have k: "blog_kind (ex_plan ''T'' [1, 2, 3]) = tutorial"
    by (simp add: ex_plan_def)
  have mo: "mode ?open = ''open_book''" and mh: "mode ?hyb \<noteq> ''open_book''"
    by simp_all
  from orchestrator_node_kind [of ?planner ?open "ex_plan ''T'' [1, 2, 3]"]
  obtain p1 where o1: "orchestrator_node ?planner ?open = Inr p1"
    and o2: "mode ?open = ''open_book'' \<longrightarrow> blog_kind p1 = news_roundup"
    and o3: "p1 = (ex_plan ''T'' [1, 2, 3])\<lparr>blog_kind := blog_kind p1\<rparr>"
    by blast
  from orchestrator_node_kind [of ?planner ?hyb "ex_plan ''T'' [1, 2, 3]"]
  obtain p2 where q1: "orchestrator_node ?planner ?hyb = Inr p2"
    and q2: "mode ?hyb \<noteq> ''open_book'' \<longrightarrow> blog_kind p2 = blog_kind (ex_plan ''T'' [1, 2, 3])"
    and q3: "p2 = (ex_plan ''T'' [1, 2, 3])\<lparr>blog_kind := blog_kind p2\<rparr>"
    by blast
  have "p1 = (ex_plan ''T'' [1, 2, 3])\<lparr>blog_kind := news_roundup\<rparr>"
    using o2 o3 mo by simp
  moreover have "p2 = ex_plan ''T'' [1, 2, 3]"
    using q2 q3 mh by simp
  ultimately show ?thesis using k o1 q1 by simp
qed

section \<open>Fan-out: one work unit per task\<close>

text \<open>
  C2. On a state whose plan is present, \<open>fanout\<close> returns one \<open>Send\<close> to the worker per
  task of the plan, in the plan's order: as many as the plan has tasks, the i-th carrying
  the i-th task together with the state's topic, mode, as_of, recency_days, the whole
  plan and the evidence list. When the task ids of the plan are pairwise distinct, so
  are the ids the work units receive.
\<close>

theorem fanout_width:
  assumes "plan s = Some p"
  shows "\<exists>sends. fanout s = Inr sends
           \<and> length sends = length (tasks p)
           \<and> map (\<lambda>x. p_task (arg x)) sends = tasks p
           \<and> (\<forall>x \<in> set sends. node x = ''worker'' \<and> p_topic (arg x) = topic s
                 \<and> p_mode (arg x) = mode s \<and> p_as_of (arg x) = as_of s
                 \<and> p_recency_days (arg x) = recency_days s \<and> p_plan (arg x) = p
                 \<and> p_evidence (arg x) = evidence s)
           \<and> (distinct (map task_id (tasks p)) \<longrightarrow>
                 distinct (map (\<lambda>x. task_id (p_task (arg x))) sends))"
  using assms by (auto simp add: fanout_def comp_def)

theorem fanout_width_witness:
  "plan (ex_reduce_state ''T'' [1, 2, 3] []) = Some (ex_plan ''T'' [1, 2, 3])
   \<and> (case fanout (ex_reduce_state ''T'' [1, 2, 3] []) of
         Inl e \<Rightarrow> False
       | Inr sends \<Rightarrow> length sends = 3
           \<and> map (\<lambda>x. task_id (p_task (arg x))) sends = [1, 2, 3]
           \<and> distinct (map (\<lambda>x. task_id (p_task (arg x))) sends))"
proof -
  let ?s = "ex_reduce_state ''T'' [1, 2, 3] []"
  let ?p = "ex_plan ''T'' [1, 2, 3]"
  have h: "plan ?s = Some ?p"
    by (simp add: ex_reduce_state_def)
  have ids: "map task_id (tasks ?p) = [1, 2, 3]"
    by (simp add: ex_plan_def ex_task_def)
  from fanout_width [OF h]
  obtain sends where f: "fanout ?s = Inr sends"
    and l: "length sends = length (tasks ?p)"
    and m: "map (\<lambda>x. p_task (arg x)) sends = tasks ?p"
    and d: "distinct (map task_id (tasks ?p)) \<longrightarrow> distinct (map (\<lambda>x. task_id (p_task (arg x))) sends)"
    by blast
  have "map (\<lambda>x. task_id (p_task (arg x))) sends = map task_id (map (\<lambda>x. p_task (arg x)) sends)"
    by simp
  then have i: "map (\<lambda>x. task_id (p_task (arg x))) sends = [1, 2, 3]"
    by (simp only: m ids)
  have "length sends = 3"
    using l by (simp add: ex_plan_def)
  then show ?thesis using h f i by simp
qed

section \<open>A missing plan\<close>

text \<open>
  C3. On a state whose plan is missing, \<open>fanout\<close> raises (its assertion fails) and
  \<open>reducer_node\<close> raises ValueError; the reducer leaves the file system as it found it,
  whatever the writer would do, and returns no document.
\<close>

theorem null_plan_fails:
  assumes "plan s = None"
  shows "fanout s = Inl AssertionError \<and> reducer_node write_text s fs = (fs, Inl ValueError)"
  using assms by (simp add: fanout_def reducer_node_def)

theorem null_plan_fails_witness:
  "plan (initial_state ''AI for kids'' ''2026-02-19'') = None
   \<and> fanout (initial_state ''AI for kids'' ''2026-02-19'') = Inl AssertionError
   \<and> reducer_node posix_write_text (initial_state ''AI for kids'' ''2026-02-19'') Map.empty
       = (Map.empty, Inl ValueError)"
proof -
  have h: "plan (initial_state ''AI for kids'' ''2026-02-19'') = None"
    by (simp add: initial_state_def)
  show ?thesis using h null_plan_fails [OF h, of posix_write_text Map.empty] by simp
qed


section \<open>Reducer: order recovery, missing sections, file name\<close>

subsection \<open>Sorting by a key that is distinct\<close>

lemma filter_key_distinct:
  "distinct (map f xs) \<Longrightarrow> k \<in> set xs \<Longrightarrow> filter (\<lambda>x. f k = f x) xs = [k]"
proof (induction xs)
  case Nil
  then show ?case by simp
next
  case (Cons a xs)
  show ?case
  proof (cases "k = a")
    case True
    have "f a \<notin> f ` set xs" using Cons.prems(1) by simp
    then have "filter (\<lambda>x. f a = f x) xs = []" by (auto simp: filter_empty_conv)
    with True show ?thesis by simp
  next
    case False
    with Cons.prems have k: "k \<in> set xs" and d: "distinct (map f xs)" and "f a \<notin> f ` set xs"
      by auto
    then have "f k \<noteq> f a" by (metis imageI)
    with Cons.IH [OF d k] show ?thesis by simp
  qed
qed

lemma sort_key_arrival_order:
  assumes m: "mset ys = mset xs" and d: "distinct (map f xs)"
  shows "sort_key f ys = sort_key f xs"
proof (rule properties_for_sort_key)
  show "mset (sort_key f xs) = mset ys" using m by simp
  show "sorted (map f (sort_key f xs))" by simp
  fix k assume "k \<in> set (sort_key f xs)"
  then have kx: "k \<in> set xs" by simp
  then have ky: "k \<in> set ys" using m by (metis mset_eq_setD)
  have "mset (map f ys) = mset (map f xs)" using m by (metis mset_map)
  then have dy: "distinct (map f ys)" using d by (metis mset_eq_imp_distinct_iff)
  have "filter (\<lambda>x. f k = f x) (sort_key f xs) = filter (\<lambda>x. f x = f k) (sort_key f xs)"
    by (rule filter_cong) auto
  also have "\<dots> = filter (\<lambda>x. f x = f k) xs" by (rule sort_key_stable)
  also have "\<dots> = filter (\<lambda>x. f k = f x) xs" by (rule filter_cong) auto
  also have "\<dots> = [k]" by (rule filter_key_distinct [OF d kx])
  also have "\<dots> = filter (\<lambda>x. f k = f x) ys" by (rule filter_key_distinct [OF dy ky, symmetric])
  finally show "filter (\<lambda>x. f k = f x) (sort_key f xs) = filter (\<lambda>x. f k = f x) ys" .
qed


subsection \<open>What the reducer returns when the plan is present\<close>

lemma reducer_node_Some:
  "plan s = Some p \<Longrightarrow>
   reducer_node w s fs =
     (fst (w fs (re_sub_unsafe (blog_title p) @ ''.md'')
            (''# '' @ blog_title p @ ''\<newline>\<newline>''
               @ strip (join ''\<newline>\<newline>'' (map snd (sort_key fst (sections s)))) @ ''\<newline>'')),
      raise_or_return
          (snd (w fs (re_sub_unsafe (blog_title p) @ ''.md'')
            (''# '' @ blog_title p @ ''\<newline>\<newline>''
                @ strip (join ''\<newline>\<newline>'' (map snd (sort_key fst (sections s)))) @ ''\<newline>'')))
          (''# '' @ blog_title p @ ''\<newline>\<newline>''
                @ strip (join ''\<newline>\<newline>'' (map snd (sort_key fst (sections s)))) @ ''\<newline>''))"
  by (simp add: reducer_node_def Let_def)

lemma re_sub_unsafe_safe: "c \<in> set (re_sub_unsafe t) \<Longrightarrow> c \<notin> set unsafe_chars"
  by (auto simp add: re_sub_unsafe_def unsafe_chars_def)

lemma md_safe: "c \<in> set ''.md'' \<Longrightarrow> c \<notin> set unsafe_chars"
  by (auto simp add: unsafe_chars_def)

lemma posix_write_text_NUL:
  "CHR 0x00 \<in> set name \<Longrightarrow> posix_write_text fs name content = (fs, Some ValueError)"
  by (simp add: posix_write_text_def)

lemma posix_write_text_ok:
  "CHR 0x00 \<notin> set name \<Longrightarrow> utf8_length name \<le> 255 \<Longrightarrow>
   posix_write_text fs name content = (fs(name \<mapsto> content), None)"
  by (simp add: posix_write_text_def)

subsection \<open>Order recovery\<close>

text \<open>
  C1 (as the code has it). Let the plan's task ids be pairwise distinct and let the
  collected pairs hold exactly one pair per task id. Then the outcome of \<open>reducer_node\<close>
  (the file system it leaves and the document or error it returns) is the same for every
  arrival order of the pairs. The node writes one document and returns it when and only
  when the write raises nothing; otherwise it raises what the write raised. That
  document is the heading \<open># \<close> followed by \<open>plan.blog_title\<close>, a blank line, the body
  and a final newline, where the body is the contents in ascending id order joined by a
  blank line and then stripped of leading and trailing whitespace.
\<close>

theorem reducer_node_order_independent:
  assumes "plan s = Some p"
    and "distinct (map task_id (tasks p))"
    and "mset (map fst secs) = mset (map task_id (tasks p))"
    and "mset arrived = mset secs"
  shows "reducer_node write_text (s\<lparr>sections := arrived\<rparr>) fs
           = reducer_node write_text (s\<lparr>sections := secs\<rparr>) fs
       \<and> (\<exists>name.
             fst (reducer_node write_text (s\<lparr>sections := arrived\<rparr>) fs)
               = fst (write_text fs name
                        (''# '' @ blog_title p @ ''\<newline>\<newline>''
                           @ strip (join ''\<newline>\<newline>'' (map snd (sort_key fst secs))) @ ''\<newline>''))
           \<and> snd (reducer_node write_text (s\<lparr>sections := arrived\<rparr>) fs)
               = (raise_or_return
                     (snd (write_text fs name
                       (''# '' @ blog_title p @ ''\<newline>\<newline>''
                           @ strip (join ''\<newline>\<newline>'' (map snd (sort_key fst secs))) @ ''\<newline>'')))
                     (''# '' @ blog_title p @ ''\<newline>\<newline>''
                           @ strip (join ''\<newline>\<newline>'' (map snd (sort_key fst secs))) @ ''\<newline>'')))"
proof -
  have "distinct (map fst secs)"
    using assms(2,3) by (metis mset_eq_imp_distinct_iff)
  with assms(4) have eq: "sort_key fst arrived = sort_key fst secs"
    by (rule sort_key_arrival_order)
  have a: "plan (s\<lparr>sections := arrived\<rparr>) = Some p" and b: "plan (s\<lparr>sections := secs\<rparr>) = Some p"
    using assms(1) by simp_all
  have same: "reducer_node write_text (s\<lparr>sections := arrived\<rparr>) fs
                = reducer_node write_text (s\<lparr>sections := secs\<rparr>) fs"
    unfolding reducer_node_Some [OF a] reducer_node_Some [OF b] by (simp add: eq)
  show ?thesis
    unfolding same
    unfolding reducer_node_Some [OF b]
    by (intro conjI exI [of _ "re_sub_unsafe (blog_title p) @ ''.md''"]) simp_all
qed

text \<open>With a writer that accepts the name, the outputs arriving as (3, c), (1, a),
  (2, b) give the body a, blank line, b, blank line, c.\<close>

theorem reducer_node_order_independent_witness:
  "distinct (map task_id (tasks (ex_plan ''T'' [1, 2, 3])))
   \<and> mset (map fst [(1, ''a''), (2, ''b''), (3, ''c'')]) = mset (map task_id (tasks (ex_plan ''T'' [1, 2, 3])))
   \<and> reducer_node posix_write_text
        ((ex_reduce_state ''T'' [1, 2, 3] [])\<lparr>sections := [(3, ''c''), (1, ''a''), (2, ''b'')]\<rparr>) Map.empty
       = reducer_node posix_write_text
           ((ex_reduce_state ''T'' [1, 2, 3] [])\<lparr>sections := [(1, ''a''), (2, ''b''), (3, ''c'')]\<rparr>) Map.empty
   \<and> reducer_node posix_write_text
        ((ex_reduce_state ''T'' [1, 2, 3] [])\<lparr>sections := [(3, ''c''), (1, ''a''), (2, ''b'')]\<rparr>) Map.empty
       = ([''T.md'' \<mapsto> ''# T\<newline>\<newline>a\<newline>\<newline>b\<newline>\<newline>c\<newline>''],
          Inr ''# T\<newline>\<newline>a\<newline>\<newline>b\<newline>\<newline>c\<newline>'')"
proof -
  let ?sorted = "(ex_reduce_state ''T'' [1, 2, 3] [])\<lparr>sections := [(1, ''a''), (2, ''b''), (3, ''c'')]\<rparr>"
  have h1: "plan (ex_reduce_state ''T'' [1, 2, 3] []) = Some (ex_plan ''T'' [1, 2, 3])"
    by (simp add: ex_reduce_state_def)
  have h2: "distinct (map task_id (tasks (ex_plan ''T'' [1, 2, 3])))"
    by (simp add: ex_plan_def ex_task_def)
  have h3: "mset (map fst [(1, ''a''), (2, ''b''), (3, ''c'')]) = mset (map task_id (tasks (ex_plan ''T'' [1, 2, 3])))"
    by (simp add: ex_plan_def ex_task_def)
  have h4: "mset [(3, ''c''), (1, ''a''), (2, ''b'')] = mset [(1::int, ''a''), (2, ''b''), (3, ''c'')]"
    by simp
  have p: "plan ?sorted = Some (ex_plan ''T'' [1, 2, 3])"
    by (simp add: ex_reduce_state_def)
  have ev: "reducer_node posix_write_text ?sorted Map.empty
       = ([''T.md'' \<mapsto> ''# T\<newline>\<newline>a\<newline>\<newline>b\<newline>\<newline>c\<newline>''],
          Inr ''# T\<newline>\<newline>a\<newline>\<newline>b\<newline>\<newline>c\<newline>'')"
    unfolding reducer_node_Some [OF p]
    by (simp add: ex_plan_def strip_def isspace_def re_sub_unsafe_def unsafe_chars_def
          posix_write_text_def utf8_length_def)
  note t = reducer_node_order_independent [OF h1 h2 h3 h4, of posix_write_text Map.empty, THEN conjunct1]
  show ?thesis
    by (intro conjI) (rule h2, rule h3, rule t, rule trans [OF t ev])
qed

text \<open>
  C1 (as stated) asks for the body to be the plain join, and for a document on every
  plan. With the pairs (2, b) and (1, empty string) for a plan with the task ids 1 and 2,
  the join of the contents in id order is two newlines followed by b, while the document
  the reducer returns has the body b: the \<open>strip()\<close> removed the leading blank line. With
  a NUL character in the title the write raises ValueError and no document is returned.
\<close>

theorem reducer_node_plain_join_counterexample:
  "snd (reducer_node posix_write_text (ex_reduce_state ''T'' [1, 2] [(2, ''b''), (1, [])]) Map.empty)
     = Inr ''# T\<newline>\<newline>b\<newline>''
   \<and> join ''\<newline>\<newline>'' (map snd (sort_key fst [(2::int, ''b''), (1, [])])) = ''\<newline>\<newline>b''
   \<and> snd (reducer_node posix_write_text (ex_reduce_state ''T'' [1, 2] [(2, ''b''), (1, [])]) Map.empty)
     \<noteq> Inr (''# T\<newline>\<newline>'' @ join ''\<newline>\<newline>'' (map snd (sort_key fst [(2::int, ''b''), (1, [])])) @ ''\<newline>'')
   \<and> reducer_node posix_write_text
        (ex_reduce_state [CHR ''a'', CHR 0x00, CHR ''b''] [1, 2] [(2, ''b''), (1, ''a'')]) Map.empty
     = (Map.empty, Inl ValueError)"
proof -
  have h: "plan (ex_reduce_state ''T'' [1, 2] [(2, ''b''), (1, [])]) = Some (ex_plan ''T'' [1, 2])"
    by (simp add: ex_reduce_state_def)
  have n: "plan (ex_reduce_state [CHR ''a'', CHR 0x00, CHR ''b''] [1, 2] [(2, ''b''), (1, ''a'')])
             = Some (ex_plan [CHR ''a'', CHR 0x00, CHR ''b''] [1, 2])"
    by (simp add: ex_reduce_state_def)
  have nul: "CHR 0x00 \<in> set (re_sub_unsafe (blog_title (ex_plan [CHR ''a'', CHR 0x00, CHR ''b''] [1, 2])) @ ''.md'')"
    by (simp add: ex_plan_def re_sub_unsafe_def unsafe_chars_def)
  have 1: "reducer_node posix_write_text
        (ex_reduce_state [CHR ''a'', CHR 0x00, CHR ''b''] [1, 2] [(2, ''b''), (1, ''a'')]) Map.empty
     = (Map.empty, Inl ValueError)"
    unfolding reducer_node_Some [OF n] posix_write_text_NUL [OF nul] by simp
  have 2: "snd (reducer_node posix_write_text (ex_reduce_state ''T'' [1, 2] [(2, ''b''), (1, [])]) Map.empty)
     = Inr ''# T\<newline>\<newline>b\<newline>''"
    unfolding reducer_node_Some [OF h]
    by (simp add: ex_reduce_state_def ex_plan_def strip_def isspace_def re_sub_unsafe_def
          unsafe_chars_def posix_write_text_def utf8_length_def)
  show ?thesis
    unfolding 1 2 by simp
qed

subsection \<open>Missing sections\<close>




subsection \<open>The file name\<close>

text \<open>
  C10 (as the code has it). When the plan is present, \<open>reducer_node\<close> writes the document
  under a name that ends in \<open>.md\<close> and contains none of the characters backslash, slash,
  colon, star, question mark, double quote, less, greater and bar; it returns the
  document when the write raises nothing and otherwise raises what the write raised.
  The part of the name before \<open>.md\<close> follows the title position by position, over at
  least its first forty characters: where the title has one of the nine characters the
  name has an underscore in its place (the character is replaced, not deleted), and
  elsewhere it has the title's character, up to letter case.
\<close>

theorem reducer_node_filename:
  assumes "plan s = Some p"
  shows "\<exists>stem.
           fst (reducer_node write_text s fs)
             = fst (write_text fs (stem @ ''.md'')
                      (''# '' @ blog_title p @ ''\<newline>\<newline>''
                         @ strip (join ''\<newline>\<newline>'' (map snd (sort_key fst (sections s)))) @ ''\<newline>''))
         \<and> snd (reducer_node write_text s fs)
             = (raise_or_return
                   (snd (write_text fs (stem @ ''.md'')
                     (''# '' @ blog_title p @ ''\<newline>\<newline>''
                         @ strip (join ''\<newline>\<newline>'' (map snd (sort_key fst (sections s)))) @ ''\<newline>'')))
                   (''# '' @ blog_title p @ ''\<newline>\<newline>''
                         @ strip (join ''\<newline>\<newline>'' (map snd (sort_key fst (sections s)))) @ ''\<newline>''))
         \<and> (\<forall>c \<in> set (stem @ ''.md''). c \<notin> set unsafe_chars)
         \<and> min 40 (length (blog_title p)) \<le> length stem
         \<and> length stem \<le> length (blog_title p)
         \<and> (\<forall>i < length stem.
               if blog_title p ! i \<in> set unsafe_chars then stem ! i = CHR ''_''
               else lower_char (stem ! i) = lower_char (blog_title p ! i))"
proof -
  have "\<forall>c \<in> set (re_sub_unsafe (blog_title p) @ ''.md''). c \<notin> set unsafe_chars"
    using re_sub_unsafe_safe md_safe by (metis Un_iff set_append)
  moreover have "\<forall>i < length (re_sub_unsafe (blog_title p)).
       if blog_title p ! i \<in> set unsafe_chars then re_sub_unsafe (blog_title p) ! i = CHR ''_''
       else lower_char (re_sub_unsafe (blog_title p) ! i) = lower_char (blog_title p ! i)"
    by (simp add: re_sub_unsafe_def)
  moreover have "length (re_sub_unsafe (blog_title p)) \<le> length (blog_title p)"
    and "min 40 (length (blog_title p)) \<le> length (re_sub_unsafe (blog_title p))"
    by (simp_all add: re_sub_unsafe_def)
  ultimately show ?thesis
    unfolding reducer_node_Some [OF assms]
    by (intro exI [of _ "re_sub_unsafe (blog_title p)"] conjI) simp_all
qed

text \<open>The title \<open>a/b: c?\<close> is stored as \<open>a_b_ c_.md\<close>.\<close>

theorem reducer_node_filename_witness:
  "plan (ex_reduce_state ''a/b: c?'' [1] [(1, ''x'')]) = Some (ex_plan ''a/b: c?'' [1])
   \<and> reducer_node posix_write_text (ex_reduce_state ''a/b: c?'' [1] [(1, ''x'')]) Map.empty
       = ([''a_b_ c_.md'' \<mapsto> ''# a/b: c?\<newline>\<newline>x\<newline>''], Inr ''# a/b: c?\<newline>\<newline>x\<newline>'')
   \<and> CHR ''/'' \<notin> set ''a_b_ c_.md'' \<and> CHR '':'' \<notin> set ''a_b_ c_.md'' \<and> CHR ''?'' \<notin> set ''a_b_ c_.md''"
proof -
  let ?s = "ex_reduce_state ''a/b: c?'' [1] [(1, ''x'')]"
  let ?doc = "''# a/b: c?\<newline>\<newline>x\<newline>''"
  have h: "plan ?s = Some (ex_plan ''a/b: c?'' [1])"
    by (simp add: ex_reduce_state_def)
  have ev: "reducer_node posix_write_text ?s Map.empty = ([''a_b_ c_.md'' \<mapsto> ?doc], Inr ?doc)"
    unfolding reducer_node_Some [OF h]
    by (simp add: ex_reduce_state_def ex_plan_def strip_def isspace_def re_sub_unsafe_def
          unsafe_chars_def posix_write_text_def utf8_length_def)
  from reducer_node_filename [OF h, of posix_write_text Map.empty]
  obtain stem where w: "fst (reducer_node posix_write_text ?s Map.empty)
        = fst (posix_write_text Map.empty (stem @ ''.md'')
                 (''# '' @ blog_title (ex_plan ''a/b: c?'' [1]) @ ''\<newline>\<newline>''
                    @ strip (join ''\<newline>\<newline>'' (map snd (sort_key fst (sections ?s)))) @ ''\<newline>''))"
    and safe: "\<forall>c \<in> set (stem @ ''.md''). c \<notin> set unsafe_chars"
    by blast
  have name: "stem @ ''.md'' = ''a_b_ c_.md''"
  proof (rule ccontr)
    assume d: "stem @ ''.md'' \<noteq> ''a_b_ c_.md''"
    have "fst (posix_write_text Map.empty (stem @ ''.md'') content) ''a_b_ c_.md'' = None" for content
      using d by (simp add: posix_write_text_def)
    then have "fst (reducer_node posix_write_text ?s Map.empty) ''a_b_ c_.md'' = None"
      unfolding w .
    moreover have "fst (reducer_node posix_write_text ?s Map.empty) ''a_b_ c_.md'' = Some ?doc"
      unfolding ev by simp
    ultimately show False by simp
  qed
  from safe have "CHR ''/'' \<notin> set (stem @ ''.md'') \<and> CHR '':'' \<notin> set (stem @ ''.md'')
      \<and> CHR ''?'' \<notin> set (stem @ ''.md'')"
    by (auto simp add: unsafe_chars_def)
  with h ev show ?thesis unfolding name by (intro conjI) simp_all
qed

text \<open>
  C10 (as stated) has the characters stripped out and the document persisted for every
  plan. The title \<open>a/b: c?\<close> with its three invalid characters removed and \<open>.md\<close> added
  is \<open>ab c.md\<close>, but the reducer stores the document as \<open>a_b_ c_.md\<close>. With a NUL
  character in the title the write raises ValueError and nothing is stored.
\<close>

theorem reducer_node_filename_counterexample:
  "reducer_node posix_write_text (ex_reduce_state ''a/b: c?'' [1] [(1, ''x'')]) Map.empty
       = ([''a_b_ c_.md'' \<mapsto> ''# a/b: c?\<newline>\<newline>x\<newline>''], Inr ''# a/b: c?\<newline>\<newline>x\<newline>'')
   \<and> fold removeAll unsafe_chars ''a/b: c?'' @ ''.md'' = ''ab c.md''
   \<and> ''a_b_ c_.md'' \<noteq> ''ab c.md''
   \<and> reducer_node posix_write_text
        (ex_reduce_state [CHR ''a'', CHR 0x00, CHR ''b''] [1] [(1, ''x'')]) Map.empty
       = (Map.empty, Inl ValueError)"
proof -
  let ?s = "ex_reduce_state ''a/b: c?'' [1] [(1, ''x'')]"
  let ?n = "ex_reduce_state [CHR ''a'', CHR 0x00, CHR ''b''] [1] [(1, ''x'')]"
  have h: "plan ?s = Some (ex_plan ''a/b: c?'' [1])"
    by (simp add: ex_reduce_state_def)
  have n: "plan ?n = Some (ex_plan [CHR ''a'', CHR 0x00, CHR ''b''] [1])"
    by (simp add: ex_reduce_state_def)
  have nul: "CHR 0x00 \<in> set (re_sub_unsafe (blog_title (ex_plan [CHR ''a'', CHR 0x00, CHR ''b''] [1])) @ ''.md'')"
    by (simp add: ex_plan_def re_sub_unsafe_def unsafe_chars_def)
  have 1: "reducer_node posix_write_text ?s Map.empty
       = ([''a_b_ c_.md'' \<mapsto> ''# a/b: c?\<newline>\<newline>x\<newline>''], Inr ''# a/b: c?\<newline>\<newline>x\<newline>'')"
    unfolding reducer_node_Some [OF h]
    by (simp add: ex_reduce_state_def ex_plan_def strip_def isspace_def re_sub_unsafe_def
          unsafe_chars_def posix_write_text_def utf8_length_def)
  have 2: "reducer_node posix_write_text ?n Map.empty = (Map.empty, Inl ValueError)"
    unfolding reducer_node_Some [OF n] posix_write_text_NUL [OF nul] by simp
  have 3: "fold removeAll unsafe_chars ''a/b: c?'' @ ''.md'' = ''ab c.md''"
    by (simp add: unsafe_chars_def)
  show ?thesis
    unfolding 1 2 3 by simp
qed

section \<open>Research: deduplication, recency filter, empty search\<close>

subsection \<open>The dict of the deduplication\<close>

lemma dict_setitem_keys:
  "map fst (dict_setitem k v d) = (if k \<in> fst ` set d then map fst d else map fst d @ [k])"
  by (induction d) auto

lemma dict_setitem_distinct:
  "distinct (map fst d) \<Longrightarrow> distinct (map fst (dict_setitem k v d))"
  by (simp add: dict_setitem_keys)

lemma dict_setitem_map_of:
  "map_of (dict_setitem k v d) = (map_of d)(k \<mapsto> v)"
  by (induction d) (auto simp add: fun_eq_iff)

lemma dedup_loop_distinct:
  "distinct (map fst d) \<Longrightarrow> distinct (map fst (dedup_loop es d))"
  by (induction es arbitrary: d) (simp_all add: dict_setitem_distinct)

lemma dedup_loop_map_of:
  "map_of (dedup_loop es d) u =
     (if u \<noteq> [] \<and> u \<in> url ` set es then Some (last (filter (\<lambda>x. url x = u) es)) else map_of d u)"
proof (induction es arbitrary: d)
  case Nil
  then show ?case by simp
next
  case (Cons e es)
  show ?case
  proof (cases "u \<noteq> [] \<and> u \<in> url ` set es")
    case True
    then have "filter (\<lambda>x. url x = u) es \<noteq> []"
      by (auto simp add: filter_empty_conv)
    with True show ?thesis by (simp add: Cons.IH)
  next
    case False
    then have "u = [] \<or> filter (\<lambda>x. url x = u) es = []"
      by (auto simp add: filter_empty_conv)
    with False show ?thesis
      by (auto simp add: Cons.IH dict_setitem_map_of)
  qed
qed

lemma deduped_distinct: "distinct (map fst (deduped items))"
  by (simp add: deduped_def dedup_loop_distinct)

lemma deduped_member:
  "(u, e) \<in> set (deduped items) \<longleftrightarrow>
     u \<noteq> [] \<and> u \<in> url ` set items \<and> e = last (filter (\<lambda>x. url x = u) items)"
proof -
  have "(u, e) \<in> set (deduped items) \<longleftrightarrow> map_of (deduped items) u = Some e"
    using deduped_distinct by (metis map_of_eq_Some_iff)
  also have "\<dots> \<longleftrightarrow> u \<noteq> [] \<and> u \<in> url ` set items \<and> e = last (filter (\<lambda>x. url x = u) items)"
    by (auto simp add: deduped_def dedup_loop_map_of)
  finally show ?thesis .
qed

lemma last_filter_url:
  assumes "u \<in> url ` set items"
  shows "last (filter (\<lambda>x. url x = u) items) \<in> set items
       \<and> url (last (filter (\<lambda>x. url x = u) items)) = u"
proof -
  from assms have ne: "filter (\<lambda>x. url x = u) items \<noteq> []"
    by (auto simp add: filter_empty_conv)
  then have "last (filter (\<lambda>x. url x = u) items) \<in> set (filter (\<lambda>x. url x = u) items)"
    by (rule last_in_set)
  then show ?thesis by simp
qed

lemma deduped_key_is_url: "(u, e) \<in> set (deduped items) \<Longrightarrow> u = url e"
  using deduped_member last_filter_url by metis

lemma deduped_urls: "map url (dict_values (deduped items)) = map fst (deduped items)"
  unfolding dict_values_def map_map
  by (rule map_cong [OF refl]) (auto dest: deduped_key_is_url)

lemma dict_values_deduped_distinct: "distinct (map url (dict_values (deduped items)))"
  by (simp only: deduped_urls deduped_distinct)

lemma dict_values_deduped_set:
  "set (dict_values (deduped items)) =
     {e \<in> set items. url e \<noteq> [] \<and> e = last (filter (\<lambda>x. url x = url e) items)}"
proof (intro set_eqI iffI)
  fix e assume "e \<in> set (dict_values (deduped items))"
  then obtain u where m: "(u, e) \<in> set (deduped items)"
    by (auto simp add: dict_values_def)
  then have u: "u = url e" by (rule deduped_key_is_url)
  from m have "u \<noteq> []" and "u \<in> url ` set items" and "e = last (filter (\<lambda>x. url x = u) items)"
    by (simp_all add: deduped_member)
  with u last_filter_url [of u items]
  show "e \<in> {e \<in> set items. url e \<noteq> [] \<and> e = last (filter (\<lambda>x. url x = url e) items)}"
    by simp
next
  fix e assume "e \<in> {e \<in> set items. url e \<noteq> [] \<and> e = last (filter (\<lambda>x. url x = url e) items)}"
  then have "(url e, e) \<in> set (deduped items)"
    by (simp add: deduped_member)
  then show "e \<in> set (dict_values (deduped items))"
    by (force simp add: dict_values_def)
qed

subsection \<open>The loops and the node as a whole\<close>

lemma fresh_loop_filter:
  "fresh_loop f c items acc =
     acc @ filter (\<lambda>e. \<exists>d. iso_to_date f (published_at e) = Some d \<and> c \<le> d) items"
  by (induction items arbitrary: acc) (auto split: option.splits)

lemma iso_to_date_Some:
  "iso_to_date f x = Some d \<longleftrightarrow>
     (\<exists>str. x = Some str \<and> str \<noteq> [] \<and> f (take 10 str) = Inr d)"
  by (auto simp add: iso_to_date_def split: option.splits sum.splits)

lemma gather_empty:
  "\<forall>q \<in> set qs. tavily_search q 2 = Inr [] \<Longrightarrow> gather tavily_search qs raw = Inr raw"
  by (induction qs arbitrary: raw) simp_all

lemma research_node_pack:
  assumes "gather tavily_search (take 2 (queries s)) [] = Inr raw" and "raw \<noteq> []"
    and "extractor (as_of s) (recency_days s) raw = Inr pack"
  shows "research_node fromisoformat tavily_search extractor s =
     (if mode s = ''open_book'' then
        (case fromisoformat (as_of s) of
           Inl e \<Rightarrow> Inl e
         | Inr as_of_date \<Rightarrow>
             (case timedelta_days (recency_days s) of
                Inl e \<Rightarrow> Inl e
              | Inr delta \<Rightarrow>
                  (case date_sub as_of_date delta of
                     Inl e \<Rightarrow> Inl e
                   | Inr cutoff_date \<Rightarrow>
                       Inr (filter (\<lambda>e. \<exists>d. iso_to_date fromisoformat (published_at e) = Some d \<and> cutoff_date \<le> d)
                              (dict_values (deduped (pack_evidence pack)))))))
      else Inr (dict_values (deduped (pack_evidence pack))))"
  using assms by (simp add: research_node_def Let_def fresh_loop_filter split: sum.splits)

lemma successors_research: "successors build_graph ''research'' s = Inr [''orchestrator'']"
  by (simp add: successors_def build_graph_def START_def END_def)

subsection \<open>Evaluation of the examples\<close>

lemma ex_gather: "gather ex_search (take 2 (queries (ex_research_state m))) [] = Inr [''q1'', ''q2'']"
  by (simp add: ex_research_state_def ex_search_def)

lemma ex_dates:
  "date_fromisoformat ''2026-02-19'' = Inr 739666"
  "date_fromisoformat ''2026-02-18'' = Inr 739665"
  "date_fromisoformat ''2026-02-10'' = Inr 739657"
  by code_simp+

lemma ex_state_fields:
  "mode (ex_research_state m) = m"
  "as_of (ex_research_state m) = ''2026-02-19''"
  "recency_days (ex_research_state m) = 7"
  by (simp_all add: ex_research_state_def initial_state_def)

lemma ex_deduped_dated: "dict_values (deduped ex_dated) = ex_dated"
  by (simp add: dict_values_def deduped_def ex_dated_def ex_item_def)

lemma ex_deduped_dups:
  "dict_values (deduped ex_dups) = [ex_item ''a'' ''Y'' None, ex_item ''b'' ''Z'' None]"
  by (simp add: dict_values_def deduped_def ex_dups_def ex_item_def)

subsection \<open>Deduplication by url\<close>

text \<open>
  C5. When the search found something and the extractor returned its pack, the
  deduplicated evidence has pairwise distinct urls and consists of exactly those items
  of the pack that have a non-empty url and are the last item of the pack with their
  url: the last write wins and items without a url are discarded. In every mode other
  than \<open>open_book\<close> this list is what \<open>research_node\<close> returns; in every mode, whatever
  it returns is drawn from this list and has distinct urls.
\<close>

theorem research_node_dedup:
  assumes "gather tavily_search (take 2 (queries s)) [] = Inr raw" and "raw \<noteq> []"
    and "extractor (as_of s) (recency_days s) raw = Inr pack"
  shows "distinct (map url (dict_values (deduped (pack_evidence pack))))
       \<and> set (dict_values (deduped (pack_evidence pack))) =
           {e \<in> set (pack_evidence pack).
              url e \<noteq> [] \<and> e = last (filter (\<lambda>x. url x = url e) (pack_evidence pack))}
       \<and> (mode s \<noteq> ''open_book'' \<longrightarrow>
            research_node fromisoformat tavily_search extractor s =
              Inr (dict_values (deduped (pack_evidence pack))))
       \<and> (\<forall>ev. research_node fromisoformat tavily_search extractor s = Inr ev \<longrightarrow>
              distinct (map url ev) \<and> set ev \<subseteq> set (dict_values (deduped (pack_evidence pack))))"
proof -
  let ?dd = "dict_values (deduped (pack_evidence pack))"
  note node_eq = research_node_pack [where tavily_search = tavily_search
      and extractor = extractor and fromisoformat = fromisoformat, OF assms]
  have d: "distinct (map url ?dd)" by (rule dict_values_deduped_distinct)
  have f: "distinct (map url (filter P ?dd))" for P
    using d by (rule distinct_map_filter)
  have "\<forall>ev. research_node fromisoformat tavily_search extractor s = Inr ev \<longrightarrow>
              distinct (map url ev) \<and> set ev \<subseteq> set ?dd"
    unfolding node_eq
    using d f by (auto split: if_splits sum.splits)
  moreover have "mode s \<noteq> ''open_book'' \<longrightarrow>
            research_node fromisoformat tavily_search extractor s = Inr ?dd"
    unfolding node_eq by simp
  ultimately show ?thesis
    using d dict_values_deduped_set [of "pack_evidence pack"] by (intro conjI)
qed

text \<open>The pack with the items (a, X), (a, Y), (b, Z) gives two items, and the item for
  a has the title Y.\<close>

theorem research_node_dedup_witness:
  "gather ex_search (take 2 (queries (ex_research_state ''hybrid''))) [] = Inr [''q1'', ''q2'']
   \<and> research_node date_fromisoformat ex_search (ex_extractor ex_dups) (ex_research_state ''hybrid'')
     = Inr [ex_item ''a'' ''Y'' None, ex_item ''b'' ''Z'' None]
   \<and> length [ex_item ''a'' ''Y'' None, ex_item ''b'' ''Z'' None] = 2
   \<and> title (ex_item ''a'' ''Y'' None) = ''Y''"
proof -
  have ne: "[''q1'', ''q2''] \<noteq> ([] :: string list)" by simp
  have ex: "ex_extractor ex_dups (as_of (ex_research_state m)) (recency_days (ex_research_state m)) [''q1'', ''q2'']
              = Inr \<lparr>pack_evidence = ex_dups\<rparr>" for m
    by (simp add: ex_extractor_def)
  note t = research_node_dedup [where fromisoformat = date_fromisoformat
      and tavily_search = ex_search and extractor = "ex_extractor ex_dups"
      and s = "ex_research_state ''hybrid''", OF ex_gather ne ex]
  have "research_node date_fromisoformat ex_search (ex_extractor ex_dups) (ex_research_state ''hybrid'')
     = Inr [ex_item ''a'' ''Y'' None, ex_item ''b'' ''Z'' None]"
    using t [THEN conjunct2, THEN conjunct2, THEN conjunct1]
    by (simp add: ex_state_fields ex_deduped_dups)
  then show ?thesis using ex_gather [of "''hybrid''"] by (simp add: ex_item_def)
qed

subsection \<open>The recency filter\<close>

text \<open>
  C4. When the search found something and the extractor returned its pack:
  in the mode \<open>open_book\<close>, with an as-of date that parses and a cutoff (as-of date minus
  \<open>recency_days\<close>) that is a date, \<open>research_node\<close> returns the deduplicated items whose
  \<open>published_at\<close> is present, non-empty, parses (in its first ten characters) and is on or
  after the cutoff, in their order, and drops every other item; in every other mode it
  returns the deduplicated items unchanged.
\<close>

theorem research_node_recency_filter:
  assumes "gather tavily_search (take 2 (queries s)) [] = Inr raw" and "raw \<noteq> []"
    and "extractor (as_of s) (recency_days s) raw = Inr pack"
  shows "(mode s = ''open_book'' \<longrightarrow> fromisoformat (as_of s) = Inr as_of_date \<longrightarrow>
            \<bar>recency_days s\<bar> \<le> 999999999 \<longrightarrow>
            1 \<le> as_of_date - recency_days s \<longrightarrow> as_of_date - recency_days s \<le> 3652059 \<longrightarrow>
            research_node fromisoformat tavily_search extractor s =
              Inr (filter (\<lambda>e. \<exists>str d. published_at e = Some str \<and> str \<noteq> []
                                   \<and> fromisoformat (take 10 str) = Inr d
                                   \<and> as_of_date - recency_days s \<le> d)
                     (dict_values (deduped (pack_evidence pack)))))
       \<and> (mode s \<noteq> ''open_book'' \<longrightarrow>
            research_node fromisoformat tavily_search extractor s =
              Inr (dict_values (deduped (pack_evidence pack))))"
proof -
  have p: "(\<exists>d. iso_to_date fromisoformat x = Some d \<and> c \<le> d) \<longleftrightarrow>
           (\<exists>str d. x = Some str \<and> str \<noteq> [] \<and> fromisoformat (take 10 str) = Inr d \<and> c \<le> d)" for x c
    by (auto simp add: iso_to_date_Some)
  show ?thesis
    unfolding research_node_pack [where tavily_search = tavily_search
      and extractor = extractor and fromisoformat = fromisoformat, OF assms]
    by (simp add: timedelta_days_def date_sub_def Let_def p)
qed

text \<open>As of 2026-02-19 with a window of 7 days, of the items dated 2026-02-18,
  2026-02-10 and undated only the first is kept in the mode \<open>open_book\<close>; all three are
  kept in the mode \<open>hybrid\<close>.\<close>

theorem research_node_recency_filter_witness:
  "gather ex_search (take 2 (queries (ex_research_state ''open_book''))) [] = Inr [''q1'', ''q2'']
   \<and> date_fromisoformat (as_of (ex_research_state ''open_book'')) = Inr 739666
   \<and> recency_days (ex_research_state ''open_book'') = 7
   \<and> research_node date_fromisoformat ex_search (ex_extractor ex_dated) (ex_research_state ''open_book'')
     = Inr [ex_item ''a'' ''X'' (Some ''2026-02-18'')]
   \<and> research_node date_fromisoformat ex_search (ex_extractor ex_dated) (ex_research_state ''hybrid'')
     = Inr [ex_item ''a'' ''X'' (Some ''2026-02-18''), ex_item ''b'' ''Y'' (Some ''2026-02-10''),
            ex_item ''c'' ''Z'' None]"
proof -
  have ne: "[''q1'', ''q2''] \<noteq> ([] :: string list)" by simp
  have ex: "ex_extractor ex_dated (as_of (ex_research_state m)) (recency_days (ex_research_state m)) [''q1'', ''q2'']
              = Inr \<lparr>pack_evidence = ex_dated\<rparr>" for m
    by (simp add: ex_extractor_def)
  have fl: "filter (\<lambda>e. \<exists>str. published_at e = Some str \<and> str \<noteq> []
                \<and> (\<exists>d. date_fromisoformat (take 10 str) = Inr d \<and> 739659 \<le> d)) ex_dated
            = [ex_item ''a'' ''X'' (Some ''2026-02-18'')]"
    by (simp add: ex_dated_def ex_item_def ex_dates)
  note t1 = research_node_recency_filter [where fromisoformat = date_fromisoformat
      and as_of_date = 739666 and tavily_search = ex_search and extractor = "ex_extractor ex_dated"
      and s = "ex_research_state ''open_book''", OF ex_gather ne ex]
  note t2 = research_node_recency_filter [where fromisoformat = date_fromisoformat
      and as_of_date = 739666 and tavily_search = ex_search and extractor = "ex_extractor ex_dated"
      and s = "ex_research_state ''hybrid''", OF ex_gather ne ex]
  have a: "research_node date_fromisoformat ex_search (ex_extractor ex_dated) (ex_research_state ''open_book'')
     = Inr [ex_item ''a'' ''X'' (Some ''2026-02-18'')]"
    using t1 [THEN conjunct1] by (simp add: ex_state_fields ex_dates ex_deduped_dated fl)
  have b: "research_node date_fromisoformat ex_search (ex_extractor ex_dated) (ex_research_state ''hybrid'')
     = Inr ex_dated"
    using t2 [THEN conjunct2] by (simp add: ex_state_fields ex_deduped_dated)
  show ?thesis
    using a b ex_gather [of "''open_book''"]
    by (simp add: ex_dated_def ex_state_fields ex_dates)
qed

subsection \<open>An empty search\<close>

text \<open>
  C8. When every executed query (the first two of the state) returns no raw result,
  \<open>research_node\<close> returns the empty evidence list without raising, whatever the extractor
  would do: even an extractor that always fails is not consulted. After the research
  node the graph runs the orchestrator, by the fixed edge, on every state.
\<close>

theorem research_node_empty_search:
  assumes "\<forall>q \<in> set (take 2 (queries s)). tavily_search q 2 = Inr []"
  shows "research_node fromisoformat tavily_search extractor s = Inr []
       \<and> research_node fromisoformat tavily_search (\<lambda>a r raw. Inl ServiceError) s = Inr []
       \<and> successors build_graph ''research'' s' = Inr [''orchestrator'']"
  using gather_empty [where tavily_search = tavily_search and raw = "[]", OF assms]
  by (simp add: research_node_def successors_research)

theorem research_node_empty_search_witness:
  "ex_no_results ''q1'' 2 = Inr [] \<and> ex_no_results ''q2'' 2 = Inr []
   \<and> research_node date_fromisoformat ex_no_results (\<lambda>a r raw. Inl ServiceError) (ex_research_state ''hybrid'') = Inr []
   \<and> successors build_graph ''research'' ((ex_research_state ''hybrid'')\<lparr>evidence := []\<rparr>) = Inr [''orchestrator'']"
proof -
  have h: "\<forall>q \<in> set (take 2 (queries (ex_research_state ''hybrid''))). ex_no_results q 2 = Inr []"
    by (simp add: ex_no_results_def)
  have e: "ex_no_results ''q1'' 2 = Inr []" "ex_no_results ''q2'' 2 = Inr []"
    by (simp_all add: ex_no_results_def)
  note t = research_node_empty_search [where tavily_search = ex_no_results
      and fromisoformat = date_fromisoformat and extractor = "\<lambda>a r raw. Inl ServiceError"
      and s' = "(ex_research_state ''hybrid'')\<lparr>evidence := []\<rparr>", OF h]
  show ?thesis
    by (intro conjI) (rule e(1), rule e(2), rule t [THEN conjunct1], rule t [THEN conjunct2, THEN conjunct2])
qed

end
